theory Spec2Isabelle
  imports Main "HOL-Library.AList"
begin

section \<open>Values, plain objects and the world\<close>

text \<open>
  The library keeps three pieces of mutable state: the static \<^verbatim>\<open>Roll20Object.pool\<close>,
  the table \<^verbatim>\<open>MOCKS._handlers\<close>, and the field bag \<^verbatim>\<open>_obj\<close> of every
  \<^verbatim>\<open>Roll20Object\<close>. They are gathered in one record that every operation takes and
  returns.

  Conventions of the model:
  \<^item> A plain object used as a dictionary is the list of its own properties in insertion
    order; the numeric ordering of integer-like keys is outside the model. The names
    every plain object inherits from \<^verbatim>\<open>Object.prototype\<close> are modelled for the
    handler table (\<open>Object_prototype_names\<close>), where a read of such a name yields a value
    that is not an array; for field bags and the pool they are outside the model.
  \<^item> Numbers are the integers.
  \<^item> A function value handed to the library (an event handler, a continuation) is an
    opaque identifier; what a handler does when it is called is a parameter \<open>beh\<close>,
    an arbitrary function on the world that returns normally or throws, and leaves a
    world in both cases (an exception undoes nothing).
  \<^item> Only the logger's \<^verbatim>\<open>error\<close> method is recorded (the field \<open>diagnostics\<close>);
    \<^verbatim>\<open>trace\<close>, \<^verbatim>\<open>info\<close> and \<^verbatim>\<open>log\<close> are not.
\<close>

type_synonym ref = nat
type_synonym hid = nat

datatype jsval = Undefined | Null | Bool bool | Num int | Str string | Obj ref

type_synonym fields = "(string \<times> jsval) list"

datatype error = CallbackRequired | NotAttribute | TypeError | ReferenceError | Thrown jsval

text \<open>\<^verbatim>\<open>o[key]\<close>, \<^verbatim>\<open>o[key] = v\<close> and \<^verbatim>\<open>Object.keys(o)\<close> on a plain object.\<close>

definition field :: "fields \<Rightarrow> string \<Rightarrow> jsval" where
  "field fs key = (case map_of fs key of None \<Rightarrow> Undefined | Some v \<Rightarrow> v)"

definition assign :: "string \<Rightarrow> jsval \<Rightarrow> fields \<Rightarrow> fields" where
  "assign key v fs = AList.update key v fs"

definition Object_keys :: "fields \<Rightarrow> string list" where
  "Object_keys fs = map fst fs"

text \<open>Truthiness, as tested by \<^verbatim>\<open>||\<close>.\<close>

fun truthy :: "jsval \<Rightarrow> bool" where
  "truthy Undefined = False"
| "truthy Null = False"
| "truthy (Bool b) = b"
| "truthy (Num n) = (n \<noteq> 0)"
| "truthy (Str s) = (s \<noteq> [])"
| "truthy (Obj r) = True"

text \<open>Conversion to a string, as done by a template literal and by a property key.\<close>

definition digit :: "nat \<Rightarrow> char" where
  "digit d = char_of (48 + d)"

function show_nat :: "nat \<Rightarrow> string" where
  "show_nat n = (if n < 10 then [digit n] else show_nat (n div 10) @ [digit (n mod 10)])"
  by pat_completeness auto
termination
  by (relation "measure id") auto

definition show_int :: "int \<Rightarrow> string" where
  "show_int i = (if i < 0 then CHR ''-'' # show_nat (nat (- i)) else show_nat (nat i))"

fun ToString :: "jsval \<Rightarrow> string" where
  "ToString Undefined = ''undefined''"
| "ToString Null = ''null''"
| "ToString (Bool b) = (if b then ''true'' else ''false'')"
| "ToString (Num n) = show_int n"
| "ToString (Str s) = s"
| "ToString (Obj r) = ''[object Object]''"

text \<open>
  A \<^verbatim>\<open>Roll20Object\<close> instance: its identity as a JavaScript object (what
  \<^verbatim>\<open>===\<close> compares) and the reference held in its only own property
  \<^verbatim>\<open>_obj\<close>, which is assigned in the constructor and never again.
\<close>

record Roll20Object =
  ident :: ref
  obj :: ref

record world =
  heap :: "ref \<Rightarrow> fields"
  pool :: "(string \<times> Roll20Object) list"
  handlers :: "string \<rightharpoonup> hid list"
  diagnostics :: "string list"
  next_ref :: ref

definition init_world :: world where
  "init_world = \<lparr>heap = (\<lambda>r. []), pool = [], handlers = Map.empty, diagnostics = [],
     next_ref = 0\<rparr>"

definition error_log :: "string \<Rightarrow> world \<Rightarrow> world" where
  "error_log msg w = w\<lparr>diagnostics := diagnostics w @ [msg]\<rparr>"

definition dq :: char where
  "dq = CHR 0x22"

definition may_not_set :: "string \<Rightarrow> string" where
  "may_not_set key = ''You may not set key '' @ [dq] @ key @ [dq] @ ''.''"

definition cannot_remove :: "jsval \<Rightarrow> string" where
  "cannot_remove i = ''Can'' @ [CHR 0x27] @ ''t remove obj; id '' @ ToString i @
     '' not found in pool.''"

section \<open>Roll20Object\<close>

definition ASYNC_TYPES :: "jsval list" where
  "ASYNC_TYPES = [Str ''character'', Str ''handout'']"

definition ASYNC_FIELDS :: "string list" where
  "ASYNC_FIELDS = [''notes'', ''gmnotes'', ''bio'']"

definition IMMUTABLE_KEYS :: "string list" where
  "IMMUTABLE_KEYS = [''_id'', ''id'', ''_type'', ''type'']"

text \<open>
  The constructor. \<open>r\<close> is the initializer object, which becomes \<^verbatim>\<open>this._obj\<close>
  as it is (not copied); \<open>uuid\<close> is what \<^verbatim>\<open>util.uuid()\<close> returns when it is called.
\<close>

definition Roll20Object_new :: "string \<Rightarrow> ref \<Rightarrow> world \<Rightarrow> Roll20Object \<times> world" where
  "Roll20Object_new uuid r w =
     (let this = \<lparr>ident = next_ref w, obj = r\<rparr>;
          b0 = heap w r;
          b1 = assign ''_type''
                 (if truthy (field b0 ''_type'') then field b0 ''_type'' else field b0 ''type'') b0;
          b2 = assign ''_id''
                 (if truthy (field b1 ''_id'') then field b1 ''_id'' else Str uuid) b1
      in (this,
          w\<lparr>heap := (heap w)(r := b2),
            pool := AList.update (ToString (field b2 ''_id'')) this (pool w),
            next_ref := Suc (next_ref w)\<rparr>))"

text \<open>The getter \<^verbatim>\<open>id\<close>.\<close>

definition Roll20Object_id :: "world \<Rightarrow> Roll20Object \<Rightarrow> jsval" where
  "Roll20Object_id w this = field (heap w (obj this)) ''_id''"

text \<open>
  \<^verbatim>\<open>get(key, cb)\<close>. The continuation is optional. The method throws, returns the value,
  or ends in the call \<^verbatim>\<open>cb(value)\<close>, whose result it returns.
\<close>

datatype 'cb outcome = Value jsval | Invoke 'cb jsval

definition Roll20Object_get ::
  "world \<Rightarrow> Roll20Object \<Rightarrow> string \<Rightarrow> 'cb option \<Rightarrow> error + 'cb outcome" where
  "Roll20Object_get w this key cb =
     (if field (heap w (obj this)) ''_type'' \<in> set ASYNC_TYPES \<and> key \<in> set ASYNC_FIELDS
         \<and> cb = None
      then Inl CallbackRequired
      else (let v = field (heap w (obj this)) key
            in case cb of None \<Rightarrow> Inr (Value v) | Some f \<Rightarrow> Inr (Invoke f v)))"

text \<open>
  \<^verbatim>\<open>set\<close>, in its two forms: a batch of changes, or a key (a string) and a value.
\<close>

definition set_key :: "Roll20Object \<Rightarrow> fields \<Rightarrow> string \<Rightarrow> world \<Rightarrow> world" where
  "set_key this allChanges key w =
     (if key \<in> set IMMUTABLE_KEYS then error_log (may_not_set key) w
      else w\<lparr>heap := (heap w)(obj this := assign key (field allChanges key) (heap w (obj this)))\<rparr>)"

definition Roll20Object_set ::
  "Roll20Object \<Rightarrow> fields + string \<Rightarrow> jsval \<Rightarrow> world \<Rightarrow> world" where
  "Roll20Object_set this changesOrKey v w =
     (let allChanges = (case changesOrKey of Inr key \<Rightarrow> [(key, v)] | Inl changes \<Rightarrow> changes)
      in fold (set_key this allChanges) (Object_keys allChanges) w)"

text \<open>
  \<^verbatim>\<open>remove()\<close> returns \<^verbatim>\<open>this\<close>, or nothing after the diagnostic.
\<close>

definition Roll20Object_remove :: "Roll20Object \<Rightarrow> world \<Rightarrow> Roll20Object option \<times> world" where
  "Roll20Object_remove this w =
     (let key = ToString (Roll20Object_id w this)
      in if (case map_of (pool w) key of None \<Rightarrow> False | Some e \<Rightarrow> ident e = ident this)
         then (None, error_log (cannot_remove (Roll20Object_id w this)) w)
         else (Some this, w\<lparr>pool := AList.delete key (pool w)\<rparr>))"

section \<open>The entity store\<close>

text \<open>
  \<^verbatim>\<open>createObj(type, obj)\<close> builds the initializer \<^verbatim>\<open>{...obj, type}\<close>, a new object,
  and constructs the instance on it.
\<close>

definition createObj :: "string \<Rightarrow> string \<Rightarrow> fields \<Rightarrow> world \<Rightarrow> Roll20Object \<times> world" where
  "createObj uuid ty init w =
     (let r = next_ref w;
          initializer = assign ''type'' (Str ty) init
      in Roll20Object_new uuid r (w\<lparr>heap := (heap w)(r := initializer), next_ref := Suc r\<rparr>))"

text \<open>\<^verbatim>\<open>Object.keys(Roll20Object.pool).map((key) => Roll20Object.pool[key])\<close>\<close>

definition getAllObjs :: "world \<Rightarrow> Roll20Object list" where
  "getAllObjs w = List.map_filter (map_of (pool w)) (map fst (pool w))"

text \<open>
  \<^verbatim>\<open>filterObjs(cb)\<close>: \<^verbatim>\<open>Array.prototype.filter\<close> calls the predicate on every
  element in order; a predicate that throws ends the call.
\<close>

fun filter_cb :: "('a \<Rightarrow> error + bool) \<Rightarrow> 'a list \<Rightarrow> error + 'a list" where
  "filter_cb cb [] = Inr []"
| "filter_cb cb (x # xs) =
     (case cb x of Inl e \<Rightarrow> Inl e
      | Inr b \<Rightarrow> (case filter_cb cb xs of Inl e \<Rightarrow> Inl e
                  | Inr ys \<Rightarrow> Inr (if b then x # ys else ys)))"

definition filterObjs ::
  "(Roll20Object \<Rightarrow> error + bool) \<Rightarrow> world \<Rightarrow> error + Roll20Object list" where
  "filterObjs cb w = filter_cb cb (List.map_filter (map_of (pool w)) (map fst (pool w)))"

text \<open>
  \<^verbatim>\<open>findObjs(obj, { caseInsensitive = false })\<close>.

  The second parameter is destructured on entry and has no default of its own: when the
  argument is omitted the call throws a \<^verbatim>\<open>TypeError\<close> (the options are \<open>None\<close>);
  when it is an object without the property, \<^verbatim>\<open>caseInsensitive\<close> is false.

  The body starts with \<^verbatim>\<open>const filterObjs = filterObjs || MOCKS.filterObjs\<close>, whose
  initializer reads the binding it declares. As written, a \<^verbatim>\<open>const\<close>, the read is
  in the temporal dead zone and throws a \<^verbatim>\<open>ReferenceError\<close>, on every call
  (\<open>Block_const\<close>). When the compiler emits ES5 the declaration becomes a hoisted
  \<^verbatim>\<open>var\<close>, the read yields \<^verbatim>\<open>undefined\<close> and \<^verbatim>\<open>MOCKS.filterObjs\<close> is
  called (\<open>Hoisted_var\<close>). The source does not fix the compiler's target, so it is a
  parameter.

  The predicate receives \<^verbatim>\<open>testObj\<close>, an element of the pool, that is a
  \<^verbatim>\<open>Roll20Object\<close> instance, and walks \<^verbatim>\<open>Object.keys(testObj)\<close>. The only own
  property of an instance is \<^verbatim>\<open>_obj\<close>, so \<^verbatim>\<open>testValue = testObj[key]\<close> is the
  instance's field bag, an object, and \<^verbatim>\<open>objValue = obj[key]\<close> is a property of the
  pattern. For an object \<open>x\<close>: \<^verbatim>\<open>typeof x === "string"\<close> is false,
  \<^verbatim>\<open>x.toString()\<close> is \<^verbatim>\<open>"[object Object]"\<close>, and \<^verbatim>\<open>x != y\<close> holds unless \<open>y\<close>
  is the same object or the string \<^verbatim>\<open>"[object Object]"\<close>.
\<close>

datatype binding = Block_const | Hoisted_var

definition toLowerCase_char :: "char \<Rightarrow> char" where
  "toLowerCase_char c =
     (let n = (of_char c :: nat) in if 65 \<le> n \<and> n \<le> 90 then char_of (n + 32) else c)"

definition toLowerCase :: "string \<Rightarrow> string" where
  "toLowerCase s = map toLowerCase_char s"

definition instance_keys :: "Roll20Object \<Rightarrow> string list" where
  "instance_keys testObj = [''_obj'']"

fun object_neq :: "ref \<Rightarrow> jsval \<Rightarrow> bool" where
  "object_neq r (Obj r') = (r \<noteq> r')"
| "object_neq r (Str s) = (''[object Object]'' \<noteq> s)"
| "object_neq r Undefined = True"
| "object_neq r Null = True"
| "object_neq r (Bool b) = True"
| "object_neq r (Num n) = True"

definition findObjs_key :: "fields \<Rightarrow> bool \<Rightarrow> Roll20Object \<Rightarrow> string \<Rightarrow> bool \<Rightarrow> bool" where
  "findObjs_key pat caseInsensitive testObj key found =
     (let testValue = obj testObj;
          objValue = field pat key;
          found1 =
            (if found \<and> caseInsensitive
             then (case objValue of
                     Str s \<Rightarrow>
                       (if toLowerCase ''[object Object]'' \<noteq> toLowerCase s then False
                        else found)
                   | Undefined \<Rightarrow> found | Null \<Rightarrow> found | Bool b \<Rightarrow> found
                   | Num n \<Rightarrow> found | Obj r \<Rightarrow> found)
             else found)
      in if found1 \<and> object_neq testValue objValue then False else found1)"

definition findObjs_test :: "fields \<Rightarrow> bool \<Rightarrow> Roll20Object \<Rightarrow> bool" where
  "findObjs_test pat caseInsensitive testObj =
     fold (findObjs_key pat caseInsensitive testObj) (instance_keys testObj) True"

definition findObjs ::
  "binding \<Rightarrow> fields \<Rightarrow> bool option option \<Rightarrow> world \<Rightarrow> error + Roll20Object list" where
  "findObjs target pat options w =
     (case options of
        None \<Rightarrow> Inl TypeError
      | Some caseInsensitive \<Rightarrow>
          (case target of
             Block_const \<Rightarrow> Inl ReferenceError
           | Hoisted_var \<Rightarrow>
               filterObjs
                 (\<lambda>testObj. Inr (findObjs_test pat
                                  (case caseInsensitive of None \<Rightarrow> False | Some b \<Rightarrow> b)
                                  testObj))
                 w))"

section \<open>The event bus\<close>

text \<open>
  \<^verbatim>\<open>MOCKS._handlers\<close> is a plain object (\<^verbatim>\<open>{} as Record<string, Function[]>\<close>), so
  a read \<^verbatim>\<open>MOCKS._handlers[n]\<close> of a name that every object inherits from
  \<^verbatim>\<open>Object.prototype\<close> yields the inherited member: a function (for
  \<^verbatim>\<open>__proto__\<close> the prototype object), which is truthy and is not an array. The
  names are those of the ECMAScript standard library, including its legacy accessors.
  The field \<open>handlers\<close> holds the arrays stored under the other names;
  \<open>own_handlers\<close> reads it, with the empty array for a name that has none.
\<close>

definition Object_prototype_names :: "string list" where
  "Object_prototype_names =
     [''constructor'', ''hasOwnProperty'', ''isPrototypeOf'', ''propertyIsEnumerable'',
      ''toLocaleString'', ''toString'', ''valueOf'', ''__proto__'', ''__defineGetter__'',
      ''__defineSetter__'', ''__lookupGetter__'', ''__lookupSetter__'']"

datatype handlers_value = Array "hid list" | NotArray

text \<open>\<^verbatim>\<open>MOCKS._handlers[n] || []\<close>\<close>

definition own_handlers :: "world \<Rightarrow> string \<Rightarrow> hid list" where
  "own_handlers w n = (case handlers w n of None \<Rightarrow> [] | Some hs \<Rightarrow> hs)"

definition registered :: "world \<Rightarrow> string \<Rightarrow> handlers_value" where
  "registered w n =
     (if n \<in> set Object_prototype_names then NotArray else Array (own_handlers w n))"

text \<open>
  \<^verbatim>\<open>on(eventName, handler)\<close>. On a value that is not an array,
  \<^verbatim>\<open>push\<close> is undefined and calling it throws a \<^verbatim>\<open>TypeError\<close>.
\<close>

definition on :: "string \<Rightarrow> hid \<Rightarrow> world \<Rightarrow> error \<times> world + world" where
  "on eventName handler w =
     (case registered w eventName of
        NotArray \<Rightarrow> Inl (TypeError, w)
      | Array hs \<Rightarrow> Inr (w\<lparr>handlers := (handlers w)(eventName \<mapsto> hs @ [handler])\<rparr>))"

text \<open>
  \<^verbatim>\<open>onSheetWorkerCompleted(cb)\<close>; its fixed name is not an inherited one.
\<close>

definition onSheetWorkerCompleted :: "hid \<Rightarrow> world \<Rightarrow> world" where
  "onSheetWorkerCompleted cb w =
     w\<lparr>handlers := (handlers w)(''sheetWorkerCompleted'' \<mapsto>
          own_handlers w ''sheetWorkerCompleted'' @ [cb])\<rparr>"

text \<open>
  \<^verbatim>\<open>handlers.forEach((handler) => handler(...rest))\<close> on an array. The handlers
  visited are the elements the array has when \<^verbatim>\<open>forEach\<close> starts: \<^verbatim>\<open>on\<close> and
  \<^verbatim>\<open>onSheetWorkerCompleted\<close> only append to it, and appended elements are not visited.
  A handler takes the world and returns normally (\<open>Inr\<close>) or throws (\<open>Inl\<close>), with
  the world it leaves. The result of the loop carries the calls made, in order, and the
  world after the last call; a handler that throws ends the loop, and the exception
  leaves with the calls made so far and the world as it then is.
\<close>

type_synonym behaviour = "hid \<Rightarrow> jsval list \<Rightarrow> world \<Rightarrow> error \<times> world + world"
type_synonym call = "hid \<times> jsval list"
type_synonym fired = "error \<times> call list \<times> world + call list \<times> world"

fun forEach :: "behaviour \<Rightarrow> hid list \<Rightarrow> jsval list \<Rightarrow> world \<Rightarrow> fired" where
  "forEach beh [] rest w = Inr ([], w)"
| "forEach beh (h # hs) rest w =
     (case beh h rest w of
        Inl (e, w1) \<Rightarrow> Inl (e, [(h, rest)], w1)
      | Inr w1 \<Rightarrow>
          (case forEach beh hs rest w1 of
             Inl (e, calls, w2) \<Rightarrow> Inl (e, (h, rest) # calls, w2)
           | Inr (calls, w2) \<Rightarrow> Inr ((h, rest) # calls, w2)))"

text \<open>
  \<^verbatim>\<open>handlers.forEach(...)\<close> on the value read from the table: a value that is not an
  array has no \<^verbatim>\<open>forEach\<close>, and the call throws a \<^verbatim>\<open>TypeError\<close>.
\<close>

definition forEach_value :: "behaviour \<Rightarrow> handlers_value \<Rightarrow> jsval list \<Rightarrow> world \<Rightarrow> fired" where
  "forEach_value beh hv rest w =
     (case hv of NotArray \<Rightarrow> Inl (TypeError, [], w) | Array hs \<Rightarrow> forEach beh hs rest w)"

text \<open>The world a handler leaves, however it ends.\<close>

definition world_after :: "behaviour \<Rightarrow> jsval list \<Rightarrow> hid \<Rightarrow> world \<Rightarrow> world" where
  "world_after beh rest h w = (case beh h rest w of Inl (e, w1) \<Rightarrow> w1 | Inr w1 \<Rightarrow> w1)"

text \<open>\<^verbatim>\<open>eventName.split(":")\<close> and \<^verbatim>\<open>subEvents.join(":")\<close>\<close>

fun split_colon :: "string \<Rightarrow> string list" where
  "split_colon [] = [[]]"
| "split_colon (c # cs) =
     (if c = CHR '':'' then [] # split_colon cs
      else (case split_colon cs of [] \<Rightarrow> [[c]] | s # ss \<Rightarrow> (c # s) # ss))"

fun join_colon :: "string list \<Rightarrow> string" where
  "join_colon [] = []"
| "join_colon [s] = s"
| "join_colon (s # t # ss) = s @ CHR '':'' # join_colon (t # ss)"

text \<open>
  For the statements about the loop: the handlers stored for the prefixes of a name given
  by its segments, those of the longest prefix first.
\<close>

definition prefix_handlers :: "world \<Rightarrow> string list \<Rightarrow> hid list" where
  "prefix_handlers w segs =
     concat (map (\<lambda>k. own_handlers w (join_colon (take k segs))) (rev [1..<Suc (length segs)]))"

text \<open>The \<^verbatim>\<open>while (subEvents.length)\<close> loop of \<^verbatim>\<open>_fireEvent\<close>.\<close>

function cascade :: "behaviour \<Rightarrow> string list \<Rightarrow> jsval list \<Rightarrow> world \<Rightarrow> fired" where
  "cascade beh subEvents rest w =
     (if subEvents = [] then Inr ([], w)
      else (case forEach_value beh (registered w (join_colon subEvents)) rest w of
              Inl (e, calls, w1) \<Rightarrow> Inl (e, calls, w1)
            | Inr (calls, w1) \<Rightarrow>
                (case cascade beh (butlast subEvents) rest w1 of
                   Inl (e, calls', w2) \<Rightarrow> Inl (e, calls @ calls', w2)
                 | Inr (calls', w2) \<Rightarrow> Inr (calls @ calls', w2))))"
  by pat_completeness auto
termination
  by (relation "measure (\<lambda>(beh, subEvents, rest, w). length subEvents)") auto

definition fireEvent :: "behaviour \<Rightarrow> string \<Rightarrow> jsval list \<Rightarrow> world \<Rightarrow> fired" where
  "fireEvent beh eventName rest w =
     (if eventName = ''sheetWorkerCompleted''
      then (case forEach_value beh (registered w eventName) rest w of
              Inl (e, calls, w1) \<Rightarrow> Inl (e, calls, w1)
            | Inr (calls, w1) \<Rightarrow> Inr (calls, w1\<lparr>handlers := (handlers w1)(eventName \<mapsto> [])\<rparr>))
      else cascade beh (split_colon eventName) rest w)"

text \<open>
  \<^verbatim>\<open>setWithWorker(changes)\<close>, with its own copy of the loop of \<^verbatim>\<open>set\<close>.
\<close>

definition setWithWorker_key :: "Roll20Object \<Rightarrow> fields \<Rightarrow> string \<Rightarrow> world \<Rightarrow> world" where
  "setWithWorker_key this changes key w =
     (if key \<in> set IMMUTABLE_KEYS then error_log (may_not_set key) w
      else w\<lparr>heap := (heap w)(obj this := assign key (field changes key) (heap w (obj this)))\<rparr>)"

definition Roll20Object_setWithWorker ::
  "behaviour \<Rightarrow> Roll20Object \<Rightarrow> fields \<Rightarrow> world \<Rightarrow> fired" where
  "Roll20Object_setWithWorker beh this changes w =
     (if field (heap w (obj this)) ''_type'' \<noteq> Str ''attribute''
      then Inl (NotAttribute, [], w)
      else fireEvent beh ''sheetWorkerCompleted'' []
             (fold (setWithWorker_key this changes) (Object_keys changes) w))"

section \<open>The capability binding\<close>




declare cascade.simps [simp del]

section \<open>Properties of plain objects\<close>


section \<open>Removal\<close>

text \<open>
  What \<^verbatim>\<open>remove()\<close> does: the diagnostic branch is taken exactly when the pool holds
  this very instance under its id; in every other case the entry under that id,
  whichever instance it holds, is deleted and \<^verbatim>\<open>this\<close> is returned.
\<close>

lemma remove_diagnostic_iff_occupant:
  "fst (Roll20Object_remove this w) = None \<longleftrightarrow>
     (\<exists>e. map_of (pool w) (ToString (Roll20Object_id w this)) = Some e \<and> ident e = ident this)"
  by (auto simp: Roll20Object_remove_def Let_def split: option.splits)

lemma remove_occupant_keeps_pool:
  assumes "map_of (pool w) (ToString (Roll20Object_id w this)) = Some this"
  shows "Roll20Object_remove this w =
           (None, error_log (cannot_remove (Roll20Object_id w this)) w)"
    and "pool (snd (Roll20Object_remove this w)) = pool w"
  using assms by (simp_all add: Roll20Object_remove_def Let_def error_log_def)

lemma remove_other_deletes_entry:
  assumes "map_of (pool w) (ToString (Roll20Object_id w this)) = Some e"
      and "ident e \<noteq> ident this"
  shows "fst (Roll20Object_remove this w) = Some this"
    and "map_of (pool (snd (Roll20Object_remove this w))) (ToString (Roll20Object_id w this)) = None"
  using assms by (simp_all add: Roll20Object_remove_def Let_def delete_conv')

text \<open>
  C1. The claim: \<^verbatim>\<open>remove()\<close> fails exactly when the entity is not the one registered
  under its id, and de-registers the entity when it is. The code at the claim's own
  scenario: an entity of kind \<^verbatim>\<open>"character"\<close> is created in the empty store, so it is
  the occupant of its id; \<^verbatim>\<open>remove()\<close> then emits the diagnostic, returns nothing,
  leaves the pool as it was, and the entity is still listed by \<^verbatim>\<open>getAllObjs()\<close>.
\<close>

theorem remove_rejects_registered_entity:
  "(case createObj ''x-1'' ''character'' [] init_world of
      (e, w1) \<Rightarrow>
        map_of (pool w1) (ToString (Roll20Object_id w1 e)) = Some e \<and>
        Roll20Object_remove e w1 = (None, error_log (cannot_remove (Str ''x-1'')) w1) \<and>
        pool (snd (Roll20Object_remove e w1)) = pool w1 \<and>
        e \<in> set (getAllObjs (snd (Roll20Object_remove e w1))))"
  by (simp add: createObj_def Roll20Object_new_def init_world_def assign_def field_def
      Roll20Object_remove_def Roll20Object_id_def error_log_def getAllObjs_def Let_def)

section \<open>Queries\<close>

text \<open>
  What the predicate of \<^verbatim>\<open>findObjs\<close> tests: whether the pattern's property
  \<^verbatim>\<open>_obj\<close> is loosely equal to the instance's field bag. The entity's fields and the
  other properties of the pattern are never read, and the case-insensitive test is
  followed by the exact one, so it never admits an entity the exact test rejects.
\<close>

lemma findObjs_test_eq:
  "findObjs_test pat caseInsensitive testObj \<longleftrightarrow> \<not> object_neq (obj testObj) (field pat ''_obj'')"
  by (cases "field pat ''_obj''")
     (auto simp: findObjs_test_def instance_keys_def findObjs_key_def Let_def)

lemma findObjs_test_no_obj_key:
  "field pat ''_obj'' = Undefined \<Longrightarrow> \<not> findObjs_test pat caseInsensitive testObj"
  by (simp add: findObjs_test_eq)

lemma filter_cb_total: "filter_cb (\<lambda>x. Inr (P x)) xs = Inr (filter P xs)"
  by (induction xs) simp_all

text \<open>The three ways a call of \<^verbatim>\<open>findObjs\<close> ends.\<close>

lemma findObjs_no_options: "findObjs target pat None w = Inl TypeError"
  by (simp add: findObjs_def)

lemma findObjs_const: "findObjs Block_const pat (Some caseInsensitive) w = Inl ReferenceError"
  by (simp add: findObjs_def)

lemma findObjs_var:
  "findObjs Hoisted_var pat (Some caseInsensitive) w =
     Inr (filter (\<lambda>testObj. \<not> object_neq (obj testObj) (field pat ''_obj'')) (getAllObjs w))"
  by (simp add: findObjs_def filterObjs_def getAllObjs_def filter_cb_total findObjs_test_eq)

text \<open>
  C2. The claim: \<^verbatim>\<open>findObjs(p, {caseInsensitive})\<close> returns exactly the registered
  entities whose fields match every pair of \<open>p\<close>, so that after an entity of kind
  \<^verbatim>\<open>"character"\<close> is created, \<^verbatim>\<open>findObjs({type: "character"}, {caseInsensitive: false})\<close>
  includes it. The code at that scenario: the entity is registered, its fields
  \<^verbatim>\<open>type\<close> and \<^verbatim>\<open>_type\<close> are \<^verbatim>\<open>"character"\<close>, and the result is empty, with
  and without case folding, when the local declaration is a hoisted \<^verbatim>\<open>var\<close>; as the
  \<^verbatim>\<open>const\<close> it is written as, the call throws. Either way the entity is not returned.
\<close>

theorem findObjs_misses_created_character:
  "(case createObj ''x-1'' ''character'' [] init_world of
      (e, w1) \<Rightarrow>
        getAllObjs w1 = [e] \<and>
        field (heap w1 (obj e)) ''type'' = Str ''character'' \<and>
        field (heap w1 (obj e)) ''_type'' = Str ''character'' \<and>
        findObjs Hoisted_var [(''type'', Str ''character'')] (Some (Some False)) w1 = Inr [] \<and>
        findObjs Hoisted_var [(''type'', Str ''character'')] (Some (Some True)) w1 = Inr [] \<and>
        findObjs Block_const [(''type'', Str ''character'')] (Some (Some False)) w1 =
          Inl ReferenceError)"
  by (simp add: createObj_def Roll20Object_new_def init_world_def assign_def field_def
      getAllObjs_def findObjs_def filterObjs_def findObjs_test_def instance_keys_def
      findObjs_key_def Let_def)

text \<open>
  On an empty pool \<^verbatim>\<open>filterObjs\<close> (with any predicate, also one that would throw) and
  \<^verbatim>\<open>getAllObjs\<close> return the empty list, and so does \<^verbatim>\<open>findObjs\<close> when its options
  are given and its local declaration is a hoisted \<^verbatim>\<open>var\<close>.
\<close>

lemma empty_store_returns_empty:
  assumes "pool w = []"
  shows "filterObjs cb w = Inr []"
    and "getAllObjs w = []"
    and "findObjs Hoisted_var pat (Some caseInsensitive) w = Inr []"
  using assms by (simp_all add: filterObjs_def findObjs_def getAllObjs_def)

text \<open>
  C7. The claim: every query on an empty store returns the empty sequence and never
  raises an error. The code on the empty store of a new library instance:
  \<^verbatim>\<open>filterObjs\<close> and \<^verbatim>\<open>getAllObjs\<close> return the empty list, but
  \<^verbatim>\<open>findObjs({type: "character"}, {caseInsensitive: false})\<close>, run with the
  \<^verbatim>\<open>const\<close> declaration it is written with, throws a \<^verbatim>\<open>ReferenceError\<close>; it
  returns the empty list only when that declaration is compiled to a \<^verbatim>\<open>var\<close>.
\<close>

theorem findObjs_empty_store_throws:
  "pool init_world = [] \<and>
   filterObjs (\<lambda>e. Inl (Thrown (Str ''boom''))) init_world = Inr [] \<and>
   getAllObjs init_world = [] \<and>
   findObjs Block_const [(''type'', Str ''character'')] (Some (Some False)) init_world =
     Inl ReferenceError \<and>
   findObjs Hoisted_var [(''type'', Str ''character'')] (Some (Some False)) init_world = Inr []"
  by (simp add: init_world_def filterObjs_def getAllObjs_def findObjs_def)

section \<open>Field access\<close>

text \<open>
  C6. \<^verbatim>\<open>get(key, cb)\<close> throws exactly when the entity's \<^verbatim>\<open>_type\<close> is
  \<^verbatim>\<open>"character"\<close> or \<^verbatim>\<open>"handout"\<close>, the key is \<^verbatim>\<open>"notes"\<close>, \<^verbatim>\<open>"gmnotes"\<close>
  or \<^verbatim>\<open>"bio"\<close>, and no continuation is given, and this is its only error. Without a
  continuation it otherwise returns the current value of the field; with a continuation
  it always ends in one call of the continuation on the current value of the field.
\<close>

theorem get_requires_callback_iff:
  "(Roll20Object_get w this key cb = Inl CallbackRequired \<longleftrightarrow>
      field (heap w (obj this)) ''_type'' \<in> {Str ''character'', Str ''handout''}
      \<and> key \<in> {''notes'', ''gmnotes'', ''bio''} \<and> cb = None)
   \<and> (\<forall>e. Roll20Object_get w this key cb = Inl e \<longrightarrow> e = CallbackRequired)
   \<and> (\<forall>v. Roll20Object_get w this key cb = Inr (Value v) \<longrightarrow>
         cb = None \<and> v = field (heap w (obj this)) key)
   \<and> (\<forall>f. cb = Some f \<longrightarrow>
         Roll20Object_get w this key cb = Inr (Invoke f (field (heap w (obj this)) key)))
   \<and> (\<forall>f v. Roll20Object_get w this key cb = Inr (Invoke f v) \<longrightarrow> cb = Some f)"
  by (cases cb) (auto simp: Roll20Object_get_def ASYNC_TYPES_def ASYNC_FIELDS_def Let_def)

theorem get_requires_callback_iff_witness:
  "(case createObj ''x-1'' ''character'' [(''name'', Str ''Abe''), (''bio'', Str ''born'')]
           init_world of
      (e, w1) \<Rightarrow>
        Roll20Object_get w1 e ''bio'' (None :: nat option) = Inl CallbackRequired \<and>
        Roll20Object_get w1 e ''bio'' (Some (7 :: nat)) = Inr (Invoke 7 (Str ''born'')) \<and>
        Roll20Object_get w1 e ''name'' (None :: nat option) = Inr (Value (Str ''Abe'')) \<and>
        Roll20Object_get w1 e ''name'' (Some (7 :: nat)) = Inr (Invoke 7 (Str ''Abe'')))"
proof -
  obtain e w1 where c:
    "createObj ''x-1'' ''character'' [(''name'', Str ''Abe''), (''bio'', Str ''born'')]
       init_world = (e, w1)"
    by (cases "createObj ''x-1'' ''character'' [(''name'', Str ''Abe''), (''bio'', Str ''born'')]
       init_world")
  from c have ty: "field (heap w1 (obj e)) ''_type'' = Str ''character''"
    and bio: "field (heap w1 (obj e)) ''bio'' = Str ''born''"
    and name: "field (heap w1 (obj e)) ''name'' = Str ''Abe''"
    by (auto simp: createObj_def Roll20Object_new_def init_world_def assign_def field_def Let_def)
  have 1: "Roll20Object_get w1 e ''bio'' (None :: nat option) = Inl CallbackRequired"
    using get_requires_callback_iff [of w1 e "''bio''" "None :: nat option"] ty by simp
  have 2: "Roll20Object_get w1 e ''bio'' (Some (7 :: nat)) = Inr (Invoke 7 (Str ''born''))"
    using get_requires_callback_iff [of w1 e "''bio''" "Some (7 :: nat)"] bio by simp
  have 3: "Roll20Object_get w1 e ''name'' (Some (7 :: nat)) = Inr (Invoke 7 (Str ''Abe''))"
    using get_requires_callback_iff [of w1 e "''name''" "Some (7 :: nat)"] name by simp
  have 4: "Roll20Object_get w1 e ''name'' (None :: nat option) = Inr (Value (Str ''Abe''))"
    using name by (simp add: Roll20Object_get_def ASYNC_FIELDS_def)
  from c 1 2 3 4 show ?thesis by simp
qed

section \<open>Mutation\<close>



lemma fold_set_key_frame:
  "pool (fold (set_key this allChanges) keys w) = pool w \<and>
   handlers (fold (set_key this allChanges) keys w) = handlers w \<and>
   next_ref (fold (set_key this allChanges) keys w) = next_ref w \<and>
   (\<forall>r. r \<noteq> obj this \<longrightarrow> heap (fold (set_key this allChanges) keys w) r = heap w r)"
  by (induction keys arbitrary: w) (auto simp: set_key_def error_log_def)

lemma setWithWorker_key_eq: "setWithWorker_key this changes = set_key this changes"
  by (simp add: fun_eq_iff setWithWorker_key_def set_key_def)




text \<open>
  C8. \<^verbatim>\<open>setWithWorker(changes)\<close> throws, before any change, when the entity's
  \<^verbatim>\<open>_type\<close> is not \<^verbatim>\<open>"attribute"\<close>. On an attribute it is
  \<^verbatim>\<open>_fireEvent("sheetWorkerCompleted")\<close>, with no further argument, run in the world
  that \<^verbatim>\<open>set(changes)\<close> produces.
\<close>

theorem setWithWorker_attribute_only:
  "(field (heap w (obj this)) ''_type'' \<noteq> Str ''attribute'' \<longrightarrow>
      Roll20Object_setWithWorker beh this changes w = Inl (NotAttribute, [], w))
   \<and> (field (heap w (obj this)) ''_type'' = Str ''attribute'' \<longrightarrow>
      Roll20Object_setWithWorker beh this changes w =
        fireEvent beh ''sheetWorkerCompleted'' []
          (Roll20Object_set this (Inl changes) Undefined w))"
  by (simp add: Roll20Object_setWithWorker_def Roll20Object_set_def setWithWorker_key_eq)

theorem setWithWorker_attribute_only_witness:
  "(case createObj ''x-1'' ''character'' [] init_world of
      (c, w1) \<Rightarrow>
        (case createObj ''x-2'' ''attribute'' [(''name'', Str ''hp'')] w1 of
           (a, w2) \<Rightarrow>
             Roll20Object_setWithWorker (\<lambda>h rest v. Inr (error_log ''worker done'' v)) c
                 [(''current'', Num 5)] (onSheetWorkerCompleted 5 w2) =
               Inl (NotAttribute, [], onSheetWorkerCompleted 5 w2) \<and>
             (\<exists>w3. Roll20Object_setWithWorker (\<lambda>h rest v. Inr (error_log ''worker done'' v)) a
                      [(''_id'', Str ''y''), (''current'', Num 5)]
                      (onSheetWorkerCompleted 5 w2) = Inr ([(5, [])], w3) \<and>
                    field (heap w3 (obj a)) ''current'' = Num 5 \<and>
                    field (heap w3 (obj a)) ''_id'' = Str ''x-2'' \<and>
                    diagnostics w3 = [may_not_set ''_id'', ''worker done''] \<and>
                    registered w3 ''sheetWorkerCompleted'' = Array [])))"
proof -
  let ?beh = "(\<lambda>h rest v. Inr (error_log ''worker done'' v)) :: behaviour"
  let ?changes = "[(''_id'', Str ''y''), (''current'', Num 5)]"
  obtain c w1 where c: "createObj ''x-1'' ''character'' [] init_world = (c, w1)"
    by (cases "createObj ''x-1'' ''character'' [] init_world")
  obtain a w2 where a: "createObj ''x-2'' ''attribute'' [(''name'', Str ''hp'')] w1 = (a, w2)"
    by (cases "createObj ''x-2'' ''attribute'' [(''name'', Str ''hp'')] w1")
  let ?w = "onSheetWorkerCompleted 5 w2"
  from c a have tc: "field (heap ?w (obj c)) ''_type'' = Str ''character''"
    and ta: "field (heap ?w (obj a)) ''_type'' = Str ''attribute''"
    by (auto simp: createObj_def Roll20Object_new_def init_world_def assign_def field_def
        onSheetWorkerCompleted_def Let_def)
  have 1: "Roll20Object_setWithWorker ?beh c [(''current'', Num 5)] ?w =
             Inl (NotAttribute, [], ?w)"
    using setWithWorker_attribute_only [of ?w c ?beh "[(''current'', Num 5)]"] tc by simp
  have 2: "Roll20Object_setWithWorker ?beh a ?changes ?w =
             fireEvent ?beh ''sheetWorkerCompleted'' []
               (Roll20Object_set a (Inl ?changes) Undefined ?w)"
    using setWithWorker_attribute_only [of ?w a ?beh ?changes] ta by simp
  from c a have 3:
    "\<exists>w3. fireEvent ?beh ''sheetWorkerCompleted'' []
             (Roll20Object_set a (Inl ?changes) Undefined ?w) = Inr ([(5, [])], w3) \<and>
          field (heap w3 (obj a)) ''current'' = Num 5 \<and>
          field (heap w3 (obj a)) ''_id'' = Str ''x-2'' \<and>
          diagnostics w3 = [may_not_set ''_id'', ''worker done''] \<and>
          registered w3 ''sheetWorkerCompleted'' = Array []"
    by (auto simp: createObj_def Roll20Object_new_def init_world_def assign_def field_def
        onSheetWorkerCompleted_def Let_def fireEvent_def registered_def own_handlers_def
        forEach_value_def Object_prototype_names_def Roll20Object_set_def
        Object_keys_def set_key_def IMMUTABLE_KEYS_def error_log_def)
  from c a 1 2 3 show ?thesis by simp
qed

section \<open>Events\<close>

lemma sheetWorkerCompleted_not_inherited:
  "''sheetWorkerCompleted'' \<notin> set Object_prototype_names"
  by (simp add: Object_prototype_names_def)

lemma registered_sheetWorkerCompleted:
  "registered w ''sheetWorkerCompleted'' = Array (own_handlers w ''sheetWorkerCompleted'')"
  by (simp add: registered_def sheetWorkerCompleted_not_inherited)

lemma own_handlers_fold_onSheetWorkerCompleted:
  "own_handlers (fold onSheetWorkerCompleted hs w) ''sheetWorkerCompleted'' =
     own_handlers w ''sheetWorkerCompleted'' @ hs"
  by (induction hs arbitrary: w) (simp_all add: onSheetWorkerCompleted_def own_handlers_def)

lemma own_handlers_cong: "handlers w1 = handlers w \<Longrightarrow> own_handlers w1 = own_handlers w"
  by (simp add: fun_eq_iff own_handlers_def)

text \<open>
  The loop over handlers that return normally: every handler is called once, in order,
  and the world is threaded through the calls.
\<close>

lemma forEach_returns:
  assumes "\<forall>h \<in> set hs. \<forall>v. \<exists>v'. beh h rest v = Inr v'"
  shows "forEach beh hs rest w =
           Inr (map (\<lambda>h. (h, rest)) hs, fold (world_after beh rest) hs w)"
  using assms
proof (induction hs arbitrary: w)
  case Nil
  then show ?case by simp
next
  case (Cons h hs)
  from Cons.prems have "\<exists>v'. beh h rest w = Inr v'" by simp
  then obtain w1 where w1: "beh h rest w = Inr w1" ..
  then have wa: "world_after beh rest h w = w1" by (simp add: world_after_def)
  from Cons.prems have "\<forall>h \<in> set hs. \<forall>v. \<exists>v'. beh h rest v = Inr v'" by simp
  from Cons.IH [OF this, of w1] w1 wa show ?case by simp
qed

lemma forEach_result:
  "forEach beh hs rest w = Inr (calls, w') \<Longrightarrow>
     calls = map (\<lambda>h. (h, rest)) hs \<and> w' = fold (world_after beh rest) hs w"
  by (induction hs arbitrary: w calls)
     (auto simp: world_after_def split: sum.splits prod.splits)

lemma fold_world_after_passive:
  assumes "\<forall>h \<in> set hs. \<forall>v. \<exists>v'. beh h rest v = Inr v' \<and> handlers v' = handlers v"
  shows "handlers (fold (world_after beh rest) hs w) = handlers w"
  using assms
proof (induction hs arbitrary: w)
  case Nil
  then show ?case by simp
next
  case (Cons h hs)
  from Cons.prems have "\<exists>v'. beh h rest w = Inr v' \<and> handlers v' = handlers w" by simp
  then have 1: "handlers (world_after beh rest h w) = handlers w"
    by (auto simp: world_after_def)
  from Cons.prems
  have "\<forall>h \<in> set hs. \<forall>v. \<exists>v'. beh h rest v = Inr v' \<and> handlers v' = handlers v" by simp
  from Cons.IH [OF this, of "world_after beh rest h w"] 1 show ?case by simp
qed

text \<open>
  A fire of \<^verbatim>\<open>"sheetWorkerCompleted"\<close> whose handlers all return normally: the stored
  handlers are called once each, in order, the world is the one they leave, and the
  list is then empty.
\<close>

lemma sheetWorkerCompleted_fire_returning:
  assumes "\<forall>h \<in> set (own_handlers w ''sheetWorkerCompleted''). \<forall>v. \<exists>v'. beh h rest v = Inr v'"
  shows "fireEvent beh ''sheetWorkerCompleted'' rest w =
           Inr (map (\<lambda>h. (h, rest)) (own_handlers w ''sheetWorkerCompleted''),
                (fold (world_after beh rest) (own_handlers w ''sheetWorkerCompleted'') w)
                  \<lparr>handlers :=
                     (handlers (fold (world_after beh rest)
                                 (own_handlers w ''sheetWorkerCompleted'') w))
                     (''sheetWorkerCompleted'' \<mapsto> [])\<rparr>)"
  using forEach_returns [of "own_handlers w ''sheetWorkerCompleted''" beh rest w] assms
  by (simp add: fireEvent_def registered_sheetWorkerCompleted forEach_value_def)

text \<open>
  C3. The claim: firing \<^verbatim>\<open>"sheetWorkerCompleted"\<close> with n handlers registered calls
  each of them exactly once and then clears the list, so that a second fire with no new
  registration calls no handler. The code with two handlers registered, of which 5
  returns and 7 throws: the fire calls 5, then 7, and the exception leaves
  \<^verbatim>\<open>_fireEvent\<close> before the list is reset; both handlers are still registered, and a
  second fire, with no new registration, calls 5 again. Registered in the other order,
  7 throws first and 5 is not called at all.
\<close>

theorem sheetWorkerCompleted_throw_skips_reset:
  "registered (fold onSheetWorkerCompleted [5, 7] init_world) ''sheetWorkerCompleted'' =
     Array [5, 7]
   \<and> fireEvent
       (\<lambda>h rest v. if h = 7 then Inl (Thrown (Str ''boom''), v) else Inr (error_log ''five'' v))
       ''sheetWorkerCompleted'' [] (fold onSheetWorkerCompleted [5, 7] init_world) =
     Inl (Thrown (Str ''boom''), [(5, []), (7, [])],
          error_log ''five'' (fold onSheetWorkerCompleted [5, 7] init_world))
   \<and> registered (error_log ''five'' (fold onSheetWorkerCompleted [5, 7] init_world))
       ''sheetWorkerCompleted'' = Array [5, 7]
   \<and> fireEvent
       (\<lambda>h rest v. if h = 7 then Inl (Thrown (Str ''boom''), v) else Inr (error_log ''five'' v))
       ''sheetWorkerCompleted'' []
       (error_log ''five'' (fold onSheetWorkerCompleted [5, 7] init_world)) =
     Inl (Thrown (Str ''boom''), [(5, []), (7, [])],
          error_log ''five'' (error_log ''five'' (fold onSheetWorkerCompleted [5, 7] init_world)))
   \<and> fireEvent
       (\<lambda>h rest v. if h = 7 then Inl (Thrown (Str ''boom''), v) else Inr (error_log ''five'' v))
       ''sheetWorkerCompleted'' [] (fold onSheetWorkerCompleted [7, 5] init_world) =
     Inl (Thrown (Str ''boom''), [(7, [])], fold onSheetWorkerCompleted [7, 5] init_world)"
  by (simp add: fireEvent_def registered_def forEach_value_def Object_prototype_names_def
      own_handlers_def onSheetWorkerCompleted_def error_log_def init_world_def)

text \<open>
  C10. Whenever a fire of \<^verbatim>\<open>"sheetWorkerCompleted"\<close> returns, whatever the handlers
  did during it (they may have called \<^verbatim>\<open>onSheetWorkerCompleted\<close>), the list registered
  under that name is empty afterwards.
\<close>

theorem sheetWorkerCompleted_reset:
  assumes "fireEvent beh ''sheetWorkerCompleted'' rest w = Inr (calls, w')"
  shows "handlers w' ''sheetWorkerCompleted'' = Some [] \<and>
         registered w' ''sheetWorkerCompleted'' = Array []"
  using assms
  by (auto simp: fireEvent_def registered_sheetWorkerCompleted own_handlers_def
      split: sum.splits prod.splits)

theorem sheetWorkerCompleted_reset_witness:
  "\<exists>w1 w'.
     forEach (\<lambda>h rest v. Inr (onSheetWorkerCompleted 7 v)) [5] []
       (onSheetWorkerCompleted 5 init_world) = Inr ([(5, [])], w1)
     \<and> registered w1 ''sheetWorkerCompleted'' = Array [5, 7]
     \<and> fireEvent (\<lambda>h rest v. Inr (onSheetWorkerCompleted 7 v)) ''sheetWorkerCompleted'' []
         (onSheetWorkerCompleted 5 init_world) = Inr ([(5, [])], w')
     \<and> registered w' ''sheetWorkerCompleted'' = Array []"
proof -
  let ?beh = "(\<lambda>h rest v. Inr (onSheetWorkerCompleted 7 v)) :: behaviour"
  let ?w = "onSheetWorkerCompleted 5 init_world"
  let ?w1 = "onSheetWorkerCompleted 7 ?w"
  have a: "forEach ?beh [5] [] ?w = Inr ([(5, [])], ?w1)"
    by simp
  have b: "registered ?w1 ''sheetWorkerCompleted'' = Array [5, 7]"
    by (simp add: registered_sheetWorkerCompleted onSheetWorkerCompleted_def own_handlers_def
        init_world_def)
  have r: "registered ?w ''sheetWorkerCompleted'' = Array [5]"
    by (simp add: registered_sheetWorkerCompleted onSheetWorkerCompleted_def own_handlers_def
        init_world_def)
  have "\<exists>w'. fireEvent ?beh ''sheetWorkerCompleted'' [] ?w = Inr ([(5, [])], w')"
    by (simp add: fireEvent_def r forEach_value_def)
  then obtain w' where f: "fireEvent ?beh ''sheetWorkerCompleted'' [] ?w = Inr ([(5, [])], w')" ..
  from sheetWorkerCompleted_reset [OF f]
  have "registered w' ''sheetWorkerCompleted'' = Array []" ..
  with a b f show ?thesis by blast
qed

lemma split_colon_plain: "CHR '':'' \<notin> set s \<Longrightarrow> split_colon s = [s]"
  by (induction s) auto

lemma split_colon_append:
  "CHR '':'' \<notin> set s \<Longrightarrow> split_colon (s @ CHR '':'' # t) = s # split_colon t"
  by (induction s) auto

lemma split_join_colon:
  "segs \<noteq> [] \<Longrightarrow> \<forall>s \<in> set segs. CHR '':'' \<notin> set s \<Longrightarrow> split_colon (join_colon segs) = segs"
  by (induction segs rule: join_colon.induct) (simp_all add: split_colon_plain split_colon_append)

lemma split_colon_not_Nil: "split_colon s \<noteq> []"
  by (induction s) (auto split: list.splits)

lemma split_colon_segments: "t \<in> set (split_colon s) \<Longrightarrow> CHR '':'' \<notin> set t"
  by (induction s arbitrary: t) (auto split: if_splits list.splits)

lemma join_colon_Cons_char: "join_colon ((c # s) # ss) = c # join_colon (s # ss)"
  by (cases ss) simp_all

lemma join_split_colon: "join_colon (split_colon s) = s"
proof (induction s)
  case Nil
  then show ?case by simp
next
  case (Cons c cs)
  obtain t ts where sp: "split_colon cs = t # ts"
    using split_colon_not_Nil [of cs] by (cases "split_colon cs") auto
  with Cons show ?case by (simp add: join_colon_Cons_char)
qed

text \<open>Every channel name is the join of its own colon-free segments.\<close>

lemma channel_segments:
  "\<exists>segs. segs \<noteq> [] \<and> (\<forall>s \<in> set segs. CHR '':'' \<notin> set s) \<and> join_colon segs = eventName"
  using split_colon_not_Nil [of eventName] split_colon_segments [of _ eventName]
    join_split_colon [of eventName]
  by blast

lemma prefix_handlers_snoc:
  "prefix_handlers w (ss @ [s]) = own_handlers w (join_colon (ss @ [s])) @ prefix_handlers w ss"
proof -
  have tk: "map (\<lambda>k. own_handlers w (join_colon (take k (ss @ [s])))) (rev [1..<Suc (length ss)]) =
            map (\<lambda>k. own_handlers w (join_colon (take k ss))) (rev [1..<Suc (length ss)])"
    by (rule map_cong) auto
  have up: "rev [1..<Suc (length (ss @ [s]))] = Suc (length ss) # rev [1..<Suc (length ss)]"
    by simp
  show ?thesis
    unfolding prefix_handlers_def up by (simp only: list.map concat.simps tk) simp
qed

text \<open>
  The loop on a name none of whose prefixes is an inherited name, when the handlers
  stored for the prefixes return normally and leave the table as it is: the calls are
  the handlers of the whole name, then those of each shorter prefix in turn, with the
  arguments of the fire, and the world is the one these calls leave.
\<close>

lemma cascade_plain:
  assumes "\<forall>k \<in> {1..length segs}. join_colon (take k segs) \<notin> set Object_prototype_names"
      and "\<forall>h \<in> set (prefix_handlers w segs).
             \<forall>v. \<exists>v'. beh h rest v = Inr v' \<and> handlers v' = handlers v"
  shows "cascade beh segs rest w =
            Inr (map (\<lambda>h. (h, rest)) (prefix_handlers w segs),
                 fold (world_after beh rest) (prefix_handlers w segs) w)"
  using assms
proof (induction segs arbitrary: w rule: rev_induct)
  case Nil
  then show ?case by (simp add: cascade.simps prefix_handlers_def)
next
  case (snoc s ss)
  let ?top = "own_handlers w (join_colon (ss @ [s]))"
  let ?w1 = "fold (world_after beh rest) ?top w"
  have plain_top: "join_colon (ss @ [s]) \<notin> set Object_prototype_names"
    using snoc.prems(1) [rule_format, of "Suc (length ss)"] by simp
  then have reg: "registered w (join_colon (ss @ [s])) = Array ?top"
    by (simp add: registered_def)
  have passive_top: "\<forall>h \<in> set ?top. \<forall>v. \<exists>v'. beh h rest v = Inr v' \<and> handlers v' = handlers v"
    using snoc.prems(2) by (simp add: prefix_handlers_snoc)
  then have "\<forall>h \<in> set ?top. \<forall>v. \<exists>v'. beh h rest v = Inr v'" by blast
  from forEach_returns [of ?top beh rest w, OF this]
  have fe: "forEach beh ?top rest w = Inr (map (\<lambda>h. (h, rest)) ?top, ?w1)" .
  have h1: "handlers ?w1 = handlers w"
    using fold_world_after_passive [of ?top beh rest w] passive_top by blast
  then have own: "own_handlers ?w1 = own_handlers w" by (rule own_handlers_cong)
  then have ph: "prefix_handlers ?w1 ss = prefix_handlers w ss"
    by (simp add: prefix_handlers_def)
  have plain_ss: "\<forall>k \<in> {1..length ss}. join_colon (take k ss) \<notin> set Object_prototype_names"
  proof
    fix k assume k: "k \<in> {1..length ss}"
    then have "k \<in> {1..length (ss @ [s])}" and "take k (ss @ [s]) = take k ss" by simp_all
    with snoc.prems(1) show "join_colon (take k ss) \<notin> set Object_prototype_names" by metis
  qed
  have passive_ss: "\<forall>h \<in> set (prefix_handlers ?w1 ss).
                      \<forall>v. \<exists>v'. beh h rest v = Inr v' \<and> handlers v' = handlers v"
    using snoc.prems(2) by (simp add: ph prefix_handlers_snoc)
  from snoc.IH [OF plain_ss passive_ss]
  have ih: "cascade beh ss rest ?w1 =
              Inr (map (\<lambda>h. (h, rest)) (prefix_handlers w ss),
                   fold (world_after beh rest) (prefix_handlers w ss) ?w1)"
    by (simp add: ph)
  show ?case
    by (subst cascade.simps) (simp add: reg forEach_value_def fe ih prefix_handlers_snoc)
qed

lemma fireEvent_cascades_plain:
  assumes "segs \<noteq> []" and "\<forall>s \<in> set segs. CHR '':'' \<notin> set s"
      and "join_colon segs \<noteq> ''sheetWorkerCompleted''"
      and "\<forall>k \<in> {1..length segs}. join_colon (take k segs) \<notin> set Object_prototype_names"
      and "\<forall>h \<in> set (prefix_handlers w segs).
             \<forall>v. \<exists>v'. beh h rest v = Inr v' \<and> handlers v' = handlers v"
  shows "fireEvent beh (join_colon segs) rest w =
            Inr (map (\<lambda>h. (h, rest)) (prefix_handlers w segs),
                 fold (world_after beh rest) (prefix_handlers w segs) w)"
  using cascade_plain [of segs w beh rest] assms
  by (simp add: fireEvent_def split_join_colon)

text \<open>
  A fire of a name with an inherited prefix throws at that prefix, after the handlers of
  the longer prefixes have been called.
\<close>

lemma forEach_value_inherited:
  "n \<in> set Object_prototype_names \<Longrightarrow>
     forEach_value beh (registered w n) rest w = Inl (TypeError, [], w)"
  by (simp add: registered_def forEach_value_def)

lemma fireEvent_inherited:
  assumes "n \<in> set Object_prototype_names" and "CHR '':'' \<notin> set n"
  shows "fireEvent beh n rest w = Inl (TypeError, [], w)"
proof -
  from assms(1) have "n \<noteq> ''sheetWorkerCompleted''"
    using sheetWorkerCompleted_not_inherited by auto
  moreover have "cascade beh [n] rest w = Inl (TypeError, [], w)"
    by (subst cascade.simps) (simp add: forEach_value_inherited [OF assms(1)])
  ultimately show ?thesis
    by (simp add: fireEvent_def split_colon_plain [OF assms(2)])
qed

lemma on_inherited:
  "n \<in> set Object_prototype_names \<Longrightarrow> on n handler w = Inl (TypeError, w)"
  by (simp add: on_def registered_def)

text \<open>
  C4. The claim: for every name other than \<^verbatim>\<open>"sheetWorkerCompleted"\<close>, a fire calls
  the handlers of the name and then those of its shorter prefixes, and a prefix with no
  registered handler is a no-op, not an error. The code with nothing registered at all:
  firing \<^verbatim>\<open>"constructor"\<close> or \<^verbatim>\<open>"toString"\<close> throws a \<^verbatim>\<open>TypeError\<close>, because the
  table is a plain object and the read yields the inherited function; firing
  \<^verbatim>\<open>"toString:x"\<close> with handler 5 registered for it calls 5 and then throws at the
  prefix \<^verbatim>\<open>"toString"\<close>; and \<^verbatim>\<open>on("constructor", 5)\<close> throws as well, so no handler
  can be registered under such a name.
\<close>

theorem fireEvent_inherited_name_throws:
  "fireEvent (\<lambda>h rest v. Inr (error_log ''called'' v)) ''constructor'' [] init_world =
     Inl (TypeError, [], init_world)
   \<and> fireEvent (\<lambda>h rest v. Inr (error_log ''called'' v)) ''toString'' [Str ''Foo!''] init_world =
     Inl (TypeError, [], init_world)
   \<and> on ''toString:x'' 5 init_world =
       Inr (init_world\<lparr>handlers := [''toString:x'' \<mapsto> [5]]\<rparr>)
   \<and> fireEvent (\<lambda>h rest v. Inr (error_log ''called'' v)) ''toString:x'' [Str ''Foo!'']
       (init_world\<lparr>handlers := [''toString:x'' \<mapsto> [5]]\<rparr>) =
     Inl (TypeError, [(5, [Str ''Foo!''])],
          error_log ''called'' (init_world\<lparr>handlers := [''toString:x'' \<mapsto> [5]]\<rparr>))
   \<and> on ''constructor'' 5 init_world = Inl (TypeError, init_world)"
proof -
  let ?beh = "(\<lambda>h rest v. Inr (error_log ''called'' v)) :: behaviour"
  let ?w = "init_world\<lparr>handlers := [''toString:x'' \<mapsto> [5]]\<rparr>"
  have c: "''constructor'' \<in> set Object_prototype_names"
    and t: "''toString'' \<in> set Object_prototype_names"
    and tx: "''toString:x'' \<notin> set Object_prototype_names"
    by (simp_all add: Object_prototype_names_def)
  have 1: "fireEvent ?beh ''constructor'' [] init_world = Inl (TypeError, [], init_world)"
    by (rule fireEvent_inherited [OF c]) simp
  have 2: "fireEvent ?beh ''toString'' [Str ''Foo!''] init_world = Inl (TypeError, [], init_world)"
    by (rule fireEvent_inherited [OF t]) simp
  have 3: "on ''toString:x'' 5 init_world = Inr ?w"
    by (simp add: on_def registered_def tx own_handlers_def init_world_def)
  have sp: "split_colon ''toString:x'' = [''toString'', ''x'']"
    by simp
  have lvl: "forEach_value ?beh (registered ?w ''toString:x'') [Str ''Foo!''] ?w =
               Inr ([(5, [Str ''Foo!''])], error_log ''called'' ?w)"
    by (simp add: registered_def tx own_handlers_def forEach_value_def)
  have nxt: "cascade ?beh [''toString''] [Str ''Foo!''] (error_log ''called'' ?w) =
               Inl (TypeError, [], error_log ''called'' ?w)"
    by (subst cascade.simps) (simp add: forEach_value_inherited [OF t])
  have "cascade ?beh [''toString'', ''x''] [Str ''Foo!''] ?w =
          Inl (TypeError, [(5, [Str ''Foo!''])], error_log ''called'' ?w)"
    by (subst cascade.simps) (simp add: lvl nxt)
  then have 4: "fireEvent ?beh ''toString:x'' [Str ''Foo!''] ?w =
                  Inl (TypeError, [(5, [Str ''Foo!''])], error_log ''called'' ?w)"
    by (simp add: fireEvent_def)
  have 5: "on ''constructor'' 5 init_world = Inl (TypeError, init_world)"
    by (rule on_inherited [OF c])
  from 1 2 3 4 5 show ?thesis by blast
qed

text \<open>
  The scenario of handlers on \<^verbatim>\<open>"x:y"\<close>, \<^verbatim>\<open>"x"\<close> and \<^verbatim>\<open>"z"\<close>, none of them an
  inherited name: a fire of \<^verbatim>\<open>"x:y"\<close> calls the first, then the second, and not the
  third (which would throw).
\<close>

lemma fireEvent_xy_example:
  "fireEvent (\<lambda>h rest v. if h = 9 then Inl (Thrown (Str ''z''), v)
                          else Inr (error_log (if h = 5 then ''x:y'' else ''x'') v))
     ''x:y'' [Str ''Foo!'']
     (init_world\<lparr>handlers := [''x:y'' \<mapsto> [5], ''x'' \<mapsto> [7], ''z'' \<mapsto> [9]]\<rparr>) =
   Inr ([(5, [Str ''Foo!'']), (7, [Str ''Foo!''])],
        init_world\<lparr>handlers := [''x:y'' \<mapsto> [5], ''x'' \<mapsto> [7], ''z'' \<mapsto> [9]],
                   diagnostics := [''x:y'', ''x'']\<rparr>)"
proof -
  let ?beh = "(\<lambda>h rest v. if h = 9 then Inl (Thrown (Str ''z''), v)
                 else Inr (error_log (if h = 5 then ''x:y'' else ''x'') v)) :: behaviour"
  let ?w = "init_world\<lparr>handlers := [''x:y'' \<mapsto> [5], ''x'' \<mapsto> [7], ''z'' \<mapsto> [9]]\<rparr>"
  let ?segs = "[''x'', ''y'']"
  have ph: "prefix_handlers ?w ?segs = [5, 7]"
    by (simp add: prefix_handlers_def own_handlers_def upt_rec)
  have 1: "?segs \<noteq> []" by simp
  have 2: "\<forall>s \<in> set ?segs. CHR '':'' \<notin> set s" by simp
  have 3: "join_colon ?segs \<noteq> ''sheetWorkerCompleted''" by simp
  have 4: "\<forall>k \<in> {1..length ?segs}. join_colon (take k ?segs) \<notin> set Object_prototype_names"
  proof
    fix k assume "k \<in> {1..length ?segs}"
    then have "k = 1 \<or> k = 2" by auto
    then show "join_colon (take k ?segs) \<notin> set Object_prototype_names"
      by (auto simp: Object_prototype_names_def)
  qed
  have 5: "\<forall>h \<in> set (prefix_handlers ?w ?segs).
             \<forall>v. \<exists>v'. ?beh h [Str ''Foo!''] v = Inr v' \<and> handlers v' = handlers v"
    unfolding ph by (simp add: error_log_def)
  from fireEvent_cascades_plain
         [where segs = ?segs and beh = ?beh and w = ?w and rest = "[Str ''Foo!'']",
          OF 1 2 3 4 5]
  show ?thesis
    unfolding ph by (simp add: world_after_def error_log_def init_world_def)
qed

section \<open>Binding\<close>






end
